theory Spec2Isabelle
  imports Complex_Main "HOL-Library.Sublist" "HOL-Library.Multiset"
begin

section \<open>Python strings\<close>

text \<open>
  A Python \<open>str\<close> is a sequence of code points. It is modelled as a \<open>string\<close>, each
  \<open>char\<close> standing for one code point below 256 (the Latin-1 range); the character
  classes below are those of Python's \<open>str.isdigit\<close>, \<open>str.isspace\<close> and
  \<open>str.lower\<close> on that range.
\<close>

definition code_point :: "char \<Rightarrow> nat" where
  "code_point c = of_char c"

definition is_upper :: "char \<Rightarrow> bool" where
  "is_upper c =
     (let n = code_point c
      in (65 \<le> n \<and> n \<le> 90) \<or> (192 \<le> n \<and> n \<le> 222 \<and> n \<noteq> 215))"

definition lower_char :: "char \<Rightarrow> char" where
  "lower_char c = (if is_upper c then char_of (code_point c + 32) else c)"

definition lower :: "string \<Rightarrow> string" where
  "lower s = map lower_char s"

definition isspace :: "char \<Rightarrow> bool" where
  "isspace c =
     (let n = code_point c
      in (9 \<le> n \<and> n \<le> 13) \<or> (28 \<le> n \<and> n \<le> 32) \<or> n = 133 \<or> n = 160)"

definition strip :: "string \<Rightarrow> string" where
  "strip s = rev (dropWhile isspace (rev (dropWhile isspace s)))"

text \<open>\<open>s.split(sep)\<close> for a one-character separator: always at least one piece.\<close>

fun split_on :: "char \<Rightarrow> string \<Rightarrow> string list" where
  "split_on sep [] = [[]]"
| "split_on sep (c # cs) =
     (if c = sep then [] # split_on sep cs
      else (case split_on sep cs of
              [] \<Rightarrow> [[c]]
            | p # ps \<Rightarrow> (c # p) # ps))"

text \<open>\<open>a in b\<close> on strings: \<open>a\<close> occurs in \<open>b\<close> as a contiguous run.\<close>

definition str_in :: "string \<Rightarrow> string \<Rightarrow> bool" where
  "str_in a b = sublist a b"

section \<open>Company filter (job\_scraper.py)\<close>

text \<open>A FilterSet holds lowercase substrings; \<open>parse_company_list\<close> builds such sets.\<close>

definition lowercase_set :: "string set \<Rightarrow> bool" where
  "lowercase_set S = (\<forall>s \<in> S. lower s = s)"

definition parse_company_list :: "string \<Rightarrow> string set" where
  "parse_company_list companies_text =
     (if companies_text = [] then {}
      else set (map (\<lambda>company. lower (strip company))
                  (filter (\<lambda>company. strip company \<noteq> [])
                     (split_on CHR 0x0A companies_text))))"

definition should_include_company :: "string \<Rightarrow> string set \<Rightarrow> string set \<Rightarrow> bool" where
  "should_include_company company included_companies excluded_companies =
     (let company = lower company
      in if \<exists>excluded \<in> excluded_companies. str_in excluded company then False
         else if included_companies = {} then True
         else if \<exists>included \<in> included_companies. str_in included company then True
         else False)"

section \<open>Postings\<close>

text \<open>
  A posting is the dict built by the scraper, with exactly these six keys; \<open>url\<close> is
  \<open>None\<close> when the card has no link. A scored posting is the same dict with the two
  keys \<open>match_score\<close> and \<open>match_reasoning\<close> added.
\<close>

record posting =
  title :: string
  company :: string
  location :: string
  description :: string
  posted_date :: string
  url :: "string option"

record scored_posting = posting +
  match_score :: int
  match_reasoning :: string

text \<open>\<open>{**job, "match_score": s, "match_reasoning": r}\<close>, and the job it extends.\<close>

definition with_match :: "posting \<Rightarrow> int \<Rightarrow> string \<Rightarrow> scored_posting" where
  "with_match job s r = posting.extend job (scored_posting.fields s r)"

definition job_of :: "scored_posting \<Rightarrow> posting" where
  "job_of sp = posting.truncate sp"

text \<open>
  \<open>sorted(xs, key=lambda x: x.get('match_score', 0), reverse=True)\<close> and the in-place
  \<open>xs.sort(key=..., reverse=True)\<close>: Python's sort is stable, also with
  \<open>reverse=True\<close> (elements with equal keys keep their original order), so it is the
  stable ascending sort on the negated key.
\<close>

definition sorted_by_score_desc :: "scored_posting list \<Rightarrow> scored_posting list" where
  "sorted_by_score_desc xs = sort_key (\<lambda>x. - match_score x) xs"

section \<open>Match scorer (matching\_engine.py)\<close>

subsection \<open>Parsing the response\<close>

definition isdigit :: "char \<Rightarrow> bool" where
  "isdigit c =
     (let n = code_point c
      in (48 \<le> n \<and> n \<le> 57) \<or> n = 178 \<or> n = 179 \<or> n = 185)"

definition isdecimal :: "char \<Rightarrow> bool" where
  "isdecimal c = (let n = code_point c in 48 \<le> n \<and> n \<le> 57)"

definition decimal_value :: "string \<Rightarrow> int" where
  "decimal_value ds = foldl (\<lambda>acc c. 10 * acc + (int (code_point c) - 48)) 0 ds"

text \<open>
  \<open>int(digits)\<close> on a string of \<open>isdigit\<close> characters: ValueError (\<open>None\<close>) on the
  empty string, on a superscript digit (\<open>isdigit\<close> but not decimal), and on more digits
  than the interpreter's limit \<open>sys.get_int_max_str_digits()\<close> when that limit is
  positive (4300 by default, 0 switches it off).
\<close>

definition py_int :: "nat \<Rightarrow> string \<Rightarrow> int option" where
  "py_int max_str_digits ds =
     (if ds = [] \<or> \<not> list_all isdecimal ds then None
      else if 0 < max_str_digits \<and> max_str_digits < length ds then None
      else Some (decimal_value ds))"

datatype parse_error =
    NoSeparator
  | NoDigits
  | IntValueError
  | OutOfRange int
  | EmptyReasoning

text \<open>The inner \<open>try\<close> block of \<open>analyze_job_match\<close>, each \<open>raise\<close> a result.\<close>

definition parse_response :: "nat \<Rightarrow> string \<Rightarrow> parse_error + (int \<times> string)" where
  "parse_response max_str_digits response_text =
     (if CHR ''|'' \<notin> set response_text then Inl NoSeparator
      else
        let score_part = takeWhile (\<lambda>c. c \<noteq> CHR ''|'') response_text;
            reasoning = tl (dropWhile (\<lambda>c. c \<noteq> CHR ''|'') response_text);
            digits = filter isdigit score_part
        in if digits = [] then Inl NoDigits
           else (case py_int max_str_digits digits of
                   None \<Rightarrow> Inl IntValueError
                 | Some score \<Rightarrow>
                     if score < 0 \<or> score > 100 then Inl (OutOfRange score)
                     else
                       let reasoning = strip reasoning
                       in if reasoning = [] then Inl EmptyReasoning
                          else Inr (score, reasoning)))"

subsection \<open>The environment of a scoring run\<close>

text \<open>
  What \<open>client.messages.create\<close> does: raise \<open>anthropic.RateLimitError\<close>, raise any
  other exception (with its message \<open>str(e)\<close>), or return a response whose \<open>content\<close>
  is a list of blocks, given here by their \<open>text\<close>.
\<close>

datatype api_outcome =
    RateLimitError
  | OtherError string
  | Response "string list"

text \<open>
  The environment is fixed for a run: the outcome of the n-th API call on a prompt, the
  n-th value of \<open>random.random()\<close>, the environment variable ANTHROPIC\_API\_KEY and
  the interpreter's integer digit limit.
\<close>

record env =
  client :: "nat \<Rightarrow> string \<Rightarrow> api_outcome"
  random :: "nat \<Rightarrow> real"
  anthropic_key :: "string option"
  int_max_str_digits :: nat

text \<open>The state a run changes: API calls made, random draws made, durations slept.\<close>

record world =
  api_calls :: nat
  draws :: nat
  slept :: "real list"

definition uniform :: "env \<Rightarrow> real \<Rightarrow> real \<Rightarrow> world \<Rightarrow> real \<times> world" where
  "uniform e a b w = (a + (b - a) * random e (draws w), w\<lparr>draws := draws w + 1\<rparr>)"

definition sleep :: "real \<Rightarrow> world \<Rightarrow> world" where
  "sleep secs w = w\<lparr>slept := slept w @ [secs]\<rparr>"

definition messages_create :: "env \<Rightarrow> string \<Rightarrow> world \<Rightarrow> api_outcome \<times> world" where
  "messages_create e prompt w = (client e (api_calls w) prompt, w\<lparr>api_calls := api_calls w + 1\<rparr>)"

subsection \<open>Backoff and scoring of one posting\<close>

text \<open>
  \<open>2 ** retry_count\<close> is an integer power for a count that is not negative and the
  float \<open>1 / 2 ** (-retry_count)\<close> otherwise; durations are real numbers.
\<close>

definition wait_with_backoff :: "env \<Rightarrow> int \<Rightarrow> world \<Rightarrow> world" where
  "wait_with_backoff e retry_count w =
     (let base_delay = 20;
          max_delay = 120;
          delay = min (base_delay * power_int 2 retry_count) max_delay;
          (jitter, w) = uniform e (1 / 2) (3 / 2) w;
          final_delay = delay * jitter
      in sleep final_delay w)"

definition build_prompt :: "string \<Rightarrow> posting \<Rightarrow> string" where
  "build_prompt resume_text job =
     ''Rate this job match between 0-100 based on how well the candidate'' @ [CHR 0x27] @
     ''s resume matches the job requirements.\<newline>\<newline>'' @
     ''        JOB:\<newline>'' @
     ''        Title: '' @ title job @ ''\<newline>'' @
     ''        Company: '' @ company job @ ''\<newline>'' @
     ''        Description: '' @ description job @ ''\<newline>\<newline>'' @
     ''        RESUME:\<newline>'' @
     ''        '' @ resume_text @ ''\<newline>\<newline>'' @
     ''        Respond ONLY in this exact format:\<newline>'' @
     ''        [Score]|[2-3 key reasons for the score]\<newline>\<newline>'' @
     ''        Example: '' @ [CHR 0x22] @
     ''85|Strong product management background, healthcare industry experience, leadership skills'' @
     [CHR 0x22] @ ''\<newline>        ''"

text \<open>The result of the outer \<open>except Exception as e\<close> handler, \<open>msg\<close> being \<open>str(e)\<close>.\<close>

definition analysis_error :: "posting \<Rightarrow> string \<Rightarrow> scored_posting" where
  "analysis_error job msg = with_match job 0 (''Error during analysis: '' @ msg)"

function analyze_job_match ::
  "env \<Rightarrow> string \<Rightarrow> posting \<Rightarrow> int \<Rightarrow> world \<Rightarrow> scored_posting \<times> world" where
  "analyze_job_match e resume_text job retry_count w0 =
     (let max_retries = 5;
          (pause, w1) = uniform e 5 10 w0;
          w2 = sleep pause w1;
          prompt = build_prompt resume_text job;
          (outcome, w3) = messages_create e prompt w2
      in case outcome of
           RateLimitError \<Rightarrow>
             if retry_count < max_retries then
               let retry_count = retry_count + 1;
                   w4 = wait_with_backoff e retry_count w3
               in analyze_job_match e resume_text job retry_count w4
             else (analysis_error job ''Rate limit exceeded after 5 retries'', w3)
         | OtherError msg \<Rightarrow> (analysis_error job msg, w3)
         | Response content \<Rightarrow>
             let w4 = sleep 5 w3
             in (case content of
                   [] \<Rightarrow> (analysis_error job ''list index out of range'', w4)
                 | text # _ \<Rightarrow>
                     (case parse_response (int_max_str_digits e) (strip text) of
                        Inr (score, reasoning) \<Rightarrow> (with_match job score reasoning, w4)
                      | Inl parse_error \<Rightarrow>
                          (with_match job 0 ''Error parsing analysis results'', w4))))"
  by pat_completeness auto
termination
  by (relation "measure (\<lambda>(e, resume_text, job, retry_count, w0). nat (5 - retry_count))") auto

text \<open>
  The world after the pause before an API call and the call itself: one draw, one
  sleep of 5 to 10 seconds, one call.
\<close>

definition throttled_call :: "env \<Rightarrow> world \<Rightarrow> world" where
  "throttled_call e w =
     w\<lparr>draws := draws w + 1, slept := slept w @ [5 + 5 * random e (draws w)],
       api_calls := api_calls w + 1\<rparr>"

subsection \<open>Scoring a list of postings\<close>

text \<open>
  The \<open>for\<close> loop of \<open>analyze_matches\<close>. A progress callback is given by whether it
  returns normally on a scored posting (\<open>True\<close>) or raises; \<open>None\<close> as the first
  component of the result is an exception leaving the loop.
\<close>

fun score_jobs ::
  "env \<Rightarrow> string \<Rightarrow> (scored_posting \<Rightarrow> bool) option \<Rightarrow> posting list \<Rightarrow>
   scored_posting list \<Rightarrow> world \<Rightarrow> scored_posting list option \<times> world" where
  "score_jobs e resume_text progress_callback [] matched_jobs w = (Some matched_jobs, w)"
| "score_jobs e resume_text progress_callback (job # jobs) matched_jobs w =
     (let (job_with_match, w1) = analyze_job_match e resume_text job 0 w;
          matched_jobs = matched_jobs @ [job_with_match]
      in if (case progress_callback of None \<Rightarrow> True | Some f \<Rightarrow> f job_with_match) then
           let (pause, w2) = uniform e 10 15 w1;
               w3 = sleep pause w2
           in score_jobs e resume_text progress_callback jobs matched_jobs w3
         else (None, w1))"

definition analyze_matches ::
  "env \<Rightarrow> string \<Rightarrow> posting list \<Rightarrow> (scored_posting \<Rightarrow> bool) option \<Rightarrow> world \<Rightarrow>
   scored_posting list \<times> world" where
  "analyze_matches e resume_text jobs progress_callback w =
     (let failed = map (\<lambda>job. with_match job 0 ''Analysis failed'') jobs
      in case anthropic_key e of
           None \<Rightarrow> (failed, w)
         | Some key \<Rightarrow>
             if key = [] then (failed, w)
             else (case score_jobs e resume_text progress_callback jobs [] w of
                     (Some matched_jobs, w') \<Rightarrow> (sorted_by_score_desc matched_jobs, w')
                   | (None, w') \<Rightarrow> (failed, w')))"

section \<open>Orchestrator (main.py)\<close>

text \<open>
  The state of a \<open>JobProcessor\<close> together with the session's \<open>top_matches\<close>, which
  \<open>handle_analyzed_job\<close> replaces on every call.
\<close>

record job_processor =
  analyzed_jobs :: "scored_posting list"
  search_count :: nat
  analysis_count :: nat
  top_matches :: "scored_posting list"

definition new_job_processor :: job_processor where
  "new_job_processor =
     \<lparr>analyzed_jobs = [], search_count = 0, analysis_count = 0, top_matches = []\<rparr>"

definition handle_analyzed_job :: "job_processor \<Rightarrow> scored_posting \<Rightarrow> job_processor" where
  "handle_analyzed_job self job_with_match =
     (let jobs = analyzed_jobs self @ [job_with_match];
          count = analysis_count self + 1;
          sorted_jobs = sorted_by_score_desc jobs
      in self\<lparr>analyzed_jobs := jobs, analysis_count := count, top_matches := take 5 sorted_jobs\<rparr>)"

text \<open>The processor after the scored postings \<open>arrivals\<close> were handled, in that order.\<close>

definition after_arrivals :: "scored_posting list \<Rightarrow> job_processor" where
  "after_arrivals arrivals = foldl handle_analyzed_job new_job_processor arrivals"

section \<open>Detail fetcher (job\_scraper.py)\<close>

text \<open>
  A parsed page is the list of its tags in document order, each with its name, its
  classes and its text. \<open>detail_page\<close> is what fetching and parsing a URL gives:
  \<open>Inl\<close> is any exception (transport, HTTP status or parser), by its message.
\<close>

record tag =
  tag_name :: string
  tag_classes :: "string list"
  tag_text :: string

text \<open>
  A card of the result page is given by what the lookups inside it find: the text of
  the title, company and location elements, the \<open>datetime\<close> attribute of the time
  element (\<open>Some None\<close>: the element has none) and the \<open>href\<close> of the link
  (\<open>None\<close>: no link or no \<open>href\<close>).
\<close>

record card =
  title_elem :: "string option"
  company_elem :: "string option"
  location_elem :: "string option"
  time_elem :: "string option option"
  link_href :: "string option"

text \<open>
  A search request raises \<open>requests.RequestException\<close>, raises another exception
  while the page is fetched and parsed, or gives the cards found on the page.
\<close>

datatype page_outcome =
    RequestException string
  | OtherException string
  | Cards "card list"

text \<open>
  The site: the n-th search request at a start offset, the detail pages, the
  reformatted timestamp of an ISO date (\<open>None\<close>: not a valid date) and the n-th
  randomized placeholder timestamp. The pauses between requests change no result and
  are left out.
\<close>

record site =
  search_page :: "nat \<Rightarrow> nat \<Rightarrow> page_outcome"
  detail_page :: "string \<Rightarrow> string + tag list"
  fromisoformat :: "string \<Rightarrow> string option"
  placeholder_date :: "nat \<Rightarrow> string"

fun first_some :: "('a \<Rightarrow> 'b option) \<Rightarrow> 'a list \<Rightarrow> 'b option" where
  "first_some f [] = None"
| "first_some f (x # xs) = (case f x of Some y \<Rightarrow> Some y | None \<Rightarrow> first_some f xs)"

text \<open>\<open>soup.select_one('name.class')\<close>: the first tag of that name having that class.\<close>

definition select_one :: "tag list \<Rightarrow> string \<times> string \<Rightarrow> tag option" where
  "select_one soup selector =
     find (\<lambda>t. tag_name t = fst selector \<and> snd selector \<in> set (tag_classes t)) soup"

definition description_selectors :: "(string \<times> string) list" where
  "description_selectors =
     [(''div'', ''description__text''),
      (''div'', ''show-more-less-html__markup''),
      (''div'', ''job-description''),
      (''div'', ''description'')]"

definition description_keywords :: "string list" where
  "description_keywords = [''job description'', ''position description'', ''role description'']"

definition find_keyword :: "tag list \<Rightarrow> string \<Rightarrow> tag option" where
  "find_keyword soup keyword =
     find (\<lambda>t. tag_name t \<in> {''div'', ''section''} \<and> str_in (lower keyword) (lower (tag_text t)))
       soup"

definition not_available :: string where
  "not_available = ''Detailed description not available''"

text \<open>
  The body of the \<open>try\<close> block: \<open>Inl\<close> an exception raised in it, \<open>Inr (Some d)\<close> a
  \<open>return d\<close>, \<open>Inr None\<close> when the block ends without returning.
\<close>

definition description_body :: "site \<Rightarrow> string \<Rightarrow> string + string option" where
  "description_body e link =
     (case detail_page e link of
        Inl exn \<Rightarrow> Inl exn
      | Inr soup \<Rightarrow>
          (case first_some (select_one soup) description_selectors of
             Some description_elem \<Rightarrow> Inr (Some (strip (tag_text description_elem)))
           | None \<Rightarrow>
               (case first_some (find_keyword soup) description_keywords of
                  Some desc_elem \<Rightarrow> Inr (Some (strip (tag_text desc_elem)))
                | None \<Rightarrow> Inr None)))"

text \<open>The function: \<open>Inl\<close> would be an exception reaching the caller.\<close>

definition get_job_description :: "site \<Rightarrow> string \<Rightarrow> string + string" where
  "get_job_description e link =
     (case description_body e link of
        Inl exn \<Rightarrow> Inr not_available
      | Inr (Some d) \<Rightarrow> Inr d
      | Inr None \<Rightarrow> Inr not_available)"

section \<open>Listing fetcher (job\_scraper.py)\<close>

definition sample_titles :: "string \<Rightarrow> string list" where
  "sample_titles role =
     [''Senior '' @ role, ''Lead '' @ role, ''Principal '' @ role, ''Staff '' @ role,
      role @ '' Manager'']"

definition sample_companies :: "string list" where
  "sample_companies =
     [''Tech Corp Inc'', ''Digital Solutions Ltd'', ''Innovation Systems'',
      ''Future Technologies'', ''Global Tech Partners'']"

definition sample_descriptions :: "string \<Rightarrow> string list" where
  "sample_descriptions role =
     [''We are seeking an experienced '' @ role @
      '' to join our team. The ideal candidate will have 5+ years of experience in product development, strong leadership skills, and a track record of successful product launches.'',
      ''Join our growing team as a '' @ role @
      ''. You will be responsible for driving innovation, leading cross-functional teams, and delivering high-impact solutions.'',
      ''Exciting opportunity for a seasoned '' @ role @
      '' to make a significant impact. You will lead strategic initiatives, mentor team members, and shape the future of our products.'',
      ''We'' @ [CHR 0x27] @ ''re looking for a talented '' @ role @
      '' to help scale our operations. The ideal candidate brings deep expertise, creative problem-solving skills, and a passion for excellence.'',
      ''Outstanding opportunity for a '' @ role @
      '' to join our dynamic team. You will drive key projects, collaborate with stakeholders, and contribute to our company'' @
      [CHR 0x27] @ ''s growth.'']"

text \<open>
  \<open>get_sample_jobs\<close>; \<open>stamp\<close> is the number of placeholder timestamps made before
  the call, which makes five more.
\<close>

definition get_sample_jobs :: "site \<Rightarrow> string \<Rightarrow> string \<Rightarrow> nat \<Rightarrow> posting list" where
  "get_sample_jobs e role search_location stamp =
     map (\<lambda>i. \<lparr>title = sample_titles role ! i,
                company = sample_companies ! i,
                location = search_location,
                description = sample_descriptions role ! i,
                posted_date = placeholder_date e (stamp + i),
                url = None\<rparr>)
       [0..<5]"

text \<open>
  The arguments of \<open>scrape_linkedin_jobs\<close>. The distance and the recency window only
  enter the request URL, whose answer \<open>search_page\<close> stands for. A progress callback is
  given by whether it returns normally on a count.
\<close>

record query =
  role :: string
  search_location :: string
  progress_callback :: "(nat \<Rightarrow> bool) option"
  stream_jobs :: bool
  included_companies :: string
  excluded_companies :: string

text \<open>
  The local variables of \<open>scrape_linkedin_jobs\<close>, with the postings yielded so far, the
  search requests made and the placeholder timestamps made.
\<close>

record scrape_state =
  jobs :: "posting list"
  yielded :: "posting list"
  total_jobs_found :: nat
  filtered_count :: nat
  start :: nat
  requests :: nat
  stamps :: nat

definition max_jobs :: nat where
  "max_jobs = 3000"

text \<open>
  The posting built from a card that passed the filters: \<open>fetched\<close> is the description
  from the detail page when the card has a link, \<open>placeholder\<close> the randomized
  timestamp, replaced by the card's own date when that is present and valid.
\<close>

definition job_data_of ::
  "site \<Rightarrow> query \<Rightarrow> card \<Rightarrow> string \<Rightarrow> string \<Rightarrow> string option \<Rightarrow> string \<Rightarrow> posting" where
  "job_data_of e q c job_title company_name fetched placeholder =
     (let job_location =
            (case location_elem c of
               Some l \<Rightarrow> strip l
             | None \<Rightarrow> search_location q);
          job_description =
            (case fetched of
               Some d \<Rightarrow> d
             | None \<Rightarrow> ''Position: '' @ job_title @ ''\<newline>Company: '' @ company_name @
                        ''\<newline>Location: '' @ job_location);
          job_posted =
            (case time_elem c of
               Some (Some date_str) \<Rightarrow>
                 (case fromisoformat e date_str of
                    Some d \<Rightarrow> d
                  | None \<Rightarrow> placeholder)
             | _ \<Rightarrow> placeholder)
      in \<lparr>title = job_title, company = company_name, location = job_location,
          description = job_description, posted_date = job_posted, url = link_href c\<rparr>)"

text \<open>
  The body of the \<open>for card in job_cards\<close> loop: the state after the card, and
  whether the loop ends with \<open>break\<close>. An exception inside the card's \<open>try\<close> (a
  raising detail fetch, or a raising callback after the count was incremented) goes on
  with the next card, as the filter's \<open>continue\<close> does, without counting the card in
  \<open>total_jobs_found\<close>.
\<close>

definition process_card ::
  "site \<Rightarrow> query \<Rightarrow> string set \<Rightarrow> string set \<Rightarrow> card \<Rightarrow> scrape_state \<Rightarrow>
   scrape_state \<times> bool" where
  "process_card e q included excluded c s =
     (case (title_elem c, company_elem c) of
        (Some title_text, Some company_text) \<Rightarrow>
          let company_name = strip company_text
          in if \<not> should_include_company company_name included excluded then (s, False)
             else
               let job_title = strip title_text;
                   job_url = link_href c;
                   fetched =
                     (case job_url of
                        None \<Rightarrow> Inr None
                      | Some link \<Rightarrow>
                          if link = [] then Inr None
                          else (case get_job_description e link of
                                  Inl exn \<Rightarrow> Inl exn
                                | Inr d \<Rightarrow> Inr (Some d)))
               in (case fetched of
                     Inl exn \<Rightarrow> (s, False)
                   | Inr fetched_description \<Rightarrow>
                       let placeholder = placeholder_date e (stamps s);
                           s = s\<lparr>stamps := stamps s + 1\<rparr>;
                           job_data =
                             job_data_of e q c job_title company_name fetched_description
                               placeholder;
                           s = s\<lparr>filtered_count := filtered_count s + 1\<rparr>
                       in if (case progress_callback q of
                                None \<Rightarrow> False
                              | Some f \<Rightarrow> \<not> f (filtered_count s))
                          then (s, False)
                          else
                            let s = (if stream_jobs q then s\<lparr>yielded := yielded s @ [job_data]\<rparr>
                                     else s\<lparr>jobs := jobs s @ [job_data]\<rparr>)
                            in if filtered_count s \<ge> max_jobs then (s, True)
                               else (s\<lparr>total_jobs_found := total_jobs_found s + 1\<rparr>, False))
      | _ \<Rightarrow> (s\<lparr>total_jobs_found := total_jobs_found s + 1\<rparr>, False))"

fun process_cards ::
  "site \<Rightarrow> query \<Rightarrow> string set \<Rightarrow> string set \<Rightarrow> card list \<Rightarrow> scrape_state \<Rightarrow> scrape_state" where
  "process_cards e q included excluded [] s = s"
| "process_cards e q included excluded (c # cards) s =
     (case process_card e q included excluded c s of
        (s', True) \<Rightarrow> s'
      | (s', False) \<Rightarrow> process_cards e q included excluded cards s')"

text \<open>
  The \<open>while\<close> loop inside the outer \<open>try\<close>. It can run forever (a request that fails
  every time is repeated every time), so \<open>fuel\<close> bounds the search requests made;
  \<open>None\<close> is a loop still running when the fuel is spent. The flag of the result says
  whether an exception left the loop for the outer handler.
\<close>

fun scrape_loop ::
  "nat \<Rightarrow> site \<Rightarrow> query \<Rightarrow> string set \<Rightarrow> string set \<Rightarrow> scrape_state \<Rightarrow>
   (bool \<times> scrape_state) option" where
  "scrape_loop fuel e q included excluded s =
     (if \<not> total_jobs_found s < max_jobs then Some (False, s)
      else
        (case fuel of
           0 \<Rightarrow> None
         | Suc fuel' \<Rightarrow>
             let outcome = search_page e (requests s) (start s);
                 s = s\<lparr>requests := requests s + 1\<rparr>
             in (case outcome of
                   RequestException msg \<Rightarrow> scrape_loop fuel' e q included excluded s
                 | OtherException msg \<Rightarrow> Some (True, s)
                 | Cards job_cards \<Rightarrow>
                     if job_cards = [] then Some (False, s)
                     else
                       let s = process_cards e q included excluded job_cards s
                       in if filtered_count s \<ge> max_jobs then Some (False, s)
                          else scrape_loop fuel' e q included excluded
                                 (s\<lparr>start := start s + length job_cards\<rparr>))))"

text \<open>
  The function has a \<open>yield\<close>, so a call is a generator in both modes: the result is
  the list of postings it yields and the value it returns when it ends (\<open>None\<close> for a
  plain end).
\<close>

definition scrape_linkedin_jobs ::
  "nat \<Rightarrow> site \<Rightarrow> query \<Rightarrow> (posting list \<times> posting list option) option" where
  "scrape_linkedin_jobs fuel e q =
     (let included = parse_company_list (included_companies q);
          excluded = parse_company_list (excluded_companies q);
          s0 = \<lparr>jobs = [], yielded = [], total_jobs_found = 0, filtered_count = 0, start = 0,
                requests = 0, stamps = 0\<rparr>
      in case scrape_loop fuel e q included excluded s0 of
           None \<Rightarrow> None
         | Some (raised, s) \<Rightarrow>
             let fallback = get_sample_jobs e (role q) (search_location q) (stamps s)
             in if raised \<and> \<not> stream_jobs q
                then Some (yielded s, Some (if jobs s = [] then fallback else jobs s))
                else
                  let s = (if raised
                           then s\<lparr>yielded := yielded s @ fallback, stamps := stamps s + 5\<rparr>
                           else s)
                  in if stream_jobs q
                     then (if filtered_count s = 0
                           then Some (yielded s @
                                        get_sample_jobs e (role q) (search_location q) (stamps s),
                                      None)
                           else Some (yielded s, None))
                     else Some (yielded s,
                                Some (if jobs s \<noteq> [] then jobs s
                                      else get_sample_jobs e (role q) (search_location q)
                                             (stamps s))))"

section \<open>Inputs used in the examples\<close>

definition initial_world :: world where
  "initial_world = \<lparr>api_calls = 0, draws = 0, slept = []\<rparr>"

definition example_job :: posting where
  "example_job =
     \<lparr>title = ''Engineer'', company = ''Acme'', location = ''Berlin'',
      description = ''Builds things'', posted_date = ''2024-01-01 00:00:00'', url = None\<rparr>"

text \<open>
  A client that is rate limited on the first call and answers afterwards, one that is
  rate limited on every call, one that answers every call with a given content, and
  one that raises another exception with a given message on every call.
\<close>

definition env_once :: env where
  "env_once =
     \<lparr>client = (\<lambda>n prompt. if n = 0 then RateLimitError else Response [''85|Strong fit'']),
      random = (\<lambda>n. 1 / 2), anthropic_key = Some ''key'', int_max_str_digits = 4300\<rparr>"

definition env_limited :: env where
  "env_limited =
     \<lparr>client = (\<lambda>n prompt. RateLimitError),
      random = (\<lambda>n. 1 / 2), anthropic_key = Some ''key'', int_max_str_digits = 4300\<rparr>"

definition env_answering :: "string list \<Rightarrow> env" where
  "env_answering content =
     \<lparr>client = (\<lambda>n prompt. Response content),
      random = (\<lambda>n. 1 / 2), anthropic_key = Some ''key'', int_max_str_digits = 4300\<rparr>"

definition env_failing :: "string \<Rightarrow> env" where
  "env_failing msg =
     \<lparr>client = (\<lambda>n prompt. OtherError msg),
      random = (\<lambda>n. 1 / 2), anthropic_key = Some ''key'', int_max_str_digits = 4300\<rparr>"

text \<open>Six scored postings with the scores 40, 90, 90, 10, 60, 99, told apart by title.\<close>

definition scored_example :: "string \<Rightarrow> int \<Rightarrow> scored_posting" where
  "scored_example t s = with_match (example_job\<lparr>title := t\<rparr>) s ''Relevant experience''"

definition example_arrivals :: "scored_posting list" where
  "example_arrivals =
     [scored_example ''a'' 40, scored_example ''b'' 90, scored_example ''c'' 90,
      scored_example ''d'' 10, scored_example ''e'' 60, scored_example ''f'' 99]"

text \<open>
  A streaming query without filters, a site whose search request raises an exception
  that is not a \<open>RequestException\<close> and whose detail pages cannot be fetched, and a
  site whose search finds no card and whose detail pages have a description.
\<close>

definition example_query :: query where
  "example_query =
     \<lparr>role = ''Engineer'', search_location = ''Berlin'', progress_callback = None,
      stream_jobs = True, included_companies = [], excluded_companies = []\<rparr>"

definition broken_site :: site where
  "broken_site =
     \<lparr>search_page = (\<lambda>n offset. OtherException ''parser failure''),
      detail_page = (\<lambda>link. Inl ''connection refused''),
      fromisoformat = (\<lambda>d. None),
      placeholder_date = (\<lambda>n. ''2024-01-01 00:00:00'')\<rparr>"

definition empty_site :: site where
  "empty_site =
     \<lparr>search_page = (\<lambda>n offset. Cards []),
      detail_page =
        (\<lambda>link. Inr [\<lparr>tag_name = ''div'', tag_classes = [''job-description''],
                        tag_text = '' Builds things ''\<rparr>]),
      fromisoformat = (\<lambda>d. None),
      placeholder_date = (\<lambda>n. ''2024-01-01 00:00:00'')\<rparr>"

section \<open>Properties of the string primitives\<close>

lemma code_point_char_of: "n < 256 \<Longrightarrow> code_point (char_of n) = n"
  unfolding code_point_def by (simp add: of_char_of)

lemma lower_char_not_upper: "\<not> is_upper (lower_char c)"
proof (cases "is_upper c")
  case True
  then have "code_point c + 32 < 256"
    by (auto simp: is_upper_def Let_def)
  then have "code_point (char_of (code_point c + 32)) = code_point c + 32"
    by (rule code_point_char_of)
  with True show ?thesis
    by (auto simp: lower_char_def is_upper_def Let_def)
next
  case False
  then show ?thesis by (simp add: lower_char_def)
qed

lemma lower_char_idem: "lower_char (lower_char c) = lower_char c"
  using lower_char_not_upper [of c] by (simp add: lower_char_def [of "lower_char c"])

lemma lower_idem: "lower (lower s) = lower s"
  by (simp add: lower_def lower_char_idem)

lemma parse_company_list_lowercase: "lowercase_set (parse_company_list t)"
  by (auto simp: lowercase_set_def parse_company_list_def lower_idem split: if_splits)

text \<open>Facts that let the simplifier run the string functions on literals.\<close>

lemma char_eq_char_of: "c = char_of (n::nat) \<longleftrightarrow> of_char c = n mod 256"
  by (metis char_of_char of_char_of)

lemmas str_eval = lower_def lower_char_def is_upper_def code_point_def strip_def isspace_def
  isdigit_def isdecimal_def str_in_def sublist_code Let_def char_of_eq_iff char_eq_char_of

section \<open>The company filter\<close>

text \<open>
  C6: whenever the excluded set of a FilterSet (a set of lowercase strings) holds a
  string \<open>s\<close> that occurs in the company name when case is ignored, the company is
  rejected, whatever the included set is.
\<close>

theorem excluded_takes_priority:
  assumes "lowercase_set excluded"
    and "s \<in> excluded"
    and "str_in (lower s) (lower company_name)"
  shows "\<not> should_include_company company_name included excluded"
  using assms by (auto simp: should_include_company_def lowercase_set_def Let_def)

theorem excluded_takes_priority_witness:
  "lowercase_set {''acme''} \<and> ''acme'' \<in> {''acme''} \<and>
   str_in (lower ''acme'') (lower ''ACME Corp'') \<and>
   \<not> should_include_company ''ACME Corp'' {''acme'', ''globex''} {''acme''}"
proof -
  have a: "lowercase_set {''acme''}"
    by (simp add: lowercase_set_def str_eval)
  have b: "''acme'' \<in> {''acme''}"
    by simp
  have c: "str_in (lower ''acme'') (lower ''ACME Corp'')"
    by (simp add: str_eval)
  show ?thesis
    using a b c excluded_takes_priority [OF a b c, of "{''acme'', ''globex''}"] by blast
qed

text \<open>
  C7: with an empty included set and an empty excluded set every company is accepted.
\<close>

theorem empty_filters_accept: "should_include_company company_name {} {}"
  by (simp add: should_include_company_def)

theorem empty_filters_accept_witness: "should_include_company ''Initech'' {} {}"
  using empty_filters_accept [of "''Initech''"] by simp

section \<open>Parsing the score response\<close>

lemma split_first:
  "c \<in> set s \<Longrightarrow> s = takeWhile (\<lambda>x. x \<noteq> c) s @ c # tl (dropWhile (\<lambda>x. x \<noteq> c) s)"
  by (induction s) auto

lemma takeWhile_first: "c \<notin> set l \<Longrightarrow> takeWhile (\<lambda>x. x \<noteq> c) (l @ c # r) = l"
  by (induction l) auto

lemma dropWhile_first: "c \<notin> set l \<Longrightarrow> dropWhile (\<lambda>x. x \<noteq> c) (l @ c # r) = c # r"
  by (induction l) auto

lemma takeWhile_without: "c \<notin> set (takeWhile (\<lambda>x. x \<noteq> c) s)"
  by (induction s) auto

lemma parse_response_iff:
  "(parse_response maxd s = Inr (score, reasoning)) \<longleftrightarrow>
     (\<exists>left right. s = left @ CHR ''|'' # right \<and> CHR ''|'' \<notin> set left \<and>
        filter isdigit left \<noteq> [] \<and> py_int maxd (filter isdigit left) = Some score \<and>
        0 \<le> score \<and> score \<le> 100 \<and> reasoning = strip right \<and> reasoning \<noteq> [])"
proof
  assume ok: "parse_response maxd s = Inr (score, reasoning)"
  then have bar: "CHR ''|'' \<in> set s"
    by (auto simp: parse_response_def split: if_splits)
  let ?l = "takeWhile (\<lambda>c. c \<noteq> CHR ''|'') s"
  let ?r = "tl (dropWhile (\<lambda>c. c \<noteq> CHR ''|'') s)"
  have "s = ?l @ CHR ''|'' # ?r"
    using bar by (rule split_first)
  moreover have "CHR ''|'' \<notin> set ?l"
    by (rule takeWhile_without)
  moreover from ok bar
  have "filter isdigit ?l \<noteq> [] \<and> py_int maxd (filter isdigit ?l) = Some score \<and>
        0 \<le> score \<and> score \<le> 100 \<and> reasoning = strip ?r \<and> reasoning \<noteq> []"
    by (auto simp: parse_response_def Let_def split: if_splits option.splits)
  ultimately show "\<exists>left right. s = left @ CHR ''|'' # right \<and> CHR ''|'' \<notin> set left \<and>
        filter isdigit left \<noteq> [] \<and> py_int maxd (filter isdigit left) = Some score \<and>
        0 \<le> score \<and> score \<le> 100 \<and> reasoning = strip right \<and> reasoning \<noteq> []"
    by blast
next
  assume "\<exists>left right. s = left @ CHR ''|'' # right \<and> CHR ''|'' \<notin> set left \<and>
        filter isdigit left \<noteq> [] \<and> py_int maxd (filter isdigit left) = Some score \<and>
        0 \<le> score \<and> score \<le> 100 \<and> reasoning = strip right \<and> reasoning \<noteq> []"
  then obtain left right
    where s: "s = left @ CHR ''|'' # right" and nb: "CHR ''|'' \<notin> set left"
      and rest: "filter isdigit left \<noteq> []" "py_int maxd (filter isdigit left) = Some score"
        "0 \<le> score" "score \<le> 100" "reasoning = strip right" "reasoning \<noteq> []"
    by blast
  show "parse_response maxd s = Inr (score, reasoning)"
    using rest
    by (simp add: parse_response_def s takeWhile_first [OF nb] dropWhile_first [OF nb])
qed

lemmas parse_eval = parse_response_def py_int_def decimal_value_def str_eval

section \<open>Scoring one posting\<close>

declare analyze_job_match.simps [simp del]

lemma job_of_with_match [simp]: "job_of (with_match job s r) = job"
  by (simp add: job_of_def with_match_def posting.defs scored_posting.defs)

lemma match_score_with_match [simp]: "match_score (with_match job s r) = s"
  by (simp add: with_match_def posting.defs scored_posting.defs)

lemma match_reasoning_with_match [simp]: "match_reasoning (with_match job s r) = r"
  by (simp add: with_match_def posting.defs scored_posting.defs)

lemma analyze_job_match_unfold:
  "analyze_job_match e resume_text job retry_count w =
     (case client e (api_calls w) (build_prompt resume_text job) of
        RateLimitError \<Rightarrow>
          if retry_count < 5
          then analyze_job_match e resume_text job (retry_count + 1)
                 (wait_with_backoff e (retry_count + 1) (throttled_call e w))
          else (analysis_error job ''Rate limit exceeded after 5 retries'', throttled_call e w)
      | OtherError msg \<Rightarrow> (analysis_error job msg, throttled_call e w)
      | Response content \<Rightarrow>
          (case content of
             [] \<Rightarrow> (analysis_error job ''list index out of range'', sleep 5 (throttled_call e w))
           | t # _ \<Rightarrow>
               (case parse_response (int_max_str_digits e) (strip t) of
                  Inr (score, reasoning) \<Rightarrow>
                    (with_match job score reasoning, sleep 5 (throttled_call e w))
                | Inl err \<Rightarrow>
                    (with_match job 0 ''Error parsing analysis results'',
                     sleep 5 (throttled_call e w)))))"
  by (subst analyze_job_match.simps)
     (simp add: Let_def uniform_def sleep_def messages_create_def throttled_call_def
           split: api_outcome.splits list.splits sum.splits prod.splits)

lemma wait_with_backoff_eq:
  "wait_with_backoff e rc w =
     w\<lparr>draws := draws w + 1,
       slept := slept w @ [min (20 * power_int 2 rc) 120 * (1 / 2 + random e (draws w))]\<rparr>"
  by (simp add: wait_with_backoff_def uniform_def sleep_def Let_def)

lemma analyze_job_match_job:
  "job_of (fst (analyze_job_match e resume_text job retry_count w)) = job"
proof (induction "nat (5 - retry_count)" arbitrary: retry_count w)
  case 0
  then show ?case
    by (subst analyze_job_match_unfold)
       (simp add: analysis_error_def split: api_outcome.splits list.splits sum.splits prod.splits)
next
  case (Suc n)
  then have "n = nat (5 - (retry_count + 1))" by simp
  from Suc.hyps(1) [OF this] show ?case
    by (subst analyze_job_match_unfold)
       (simp add: analysis_error_def split: api_outcome.splits list.splits sum.splits prod.splits)
qed

lemma analyze_job_match_calls:
  "api_calls w < api_calls (snd (analyze_job_match e resume_text job retry_count w)) \<and>
   api_calls (snd (analyze_job_match e resume_text job retry_count w))
     \<le> api_calls w + 1 + nat (5 - retry_count)"
proof (induction "nat (5 - retry_count)" arbitrary: retry_count w)
  case 0
  then show ?case
    by (subst (1 2) analyze_job_match_unfold)
       (simp add: throttled_call_def sleep_def split: api_outcome.splits list.splits sum.splits prod.splits)
next
  case (Suc n)
  then have "n = nat (5 - (retry_count + 1))" by simp
  from Suc.hyps(1) [OF this, of "wait_with_backoff e (retry_count + 1) (throttled_call e w)"]
  show ?case
    by (subst (1 2) analyze_job_match_unfold)
       (auto simp add: throttled_call_def sleep_def wait_with_backoff_eq split: api_outcome.splits list.splits sum.splits prod.splits)
qed

lemma analyze_job_match_slept:
  "prefix (slept w) (slept (snd (analyze_job_match e resume_text job retry_count w)))"
proof (induction "nat (5 - retry_count)" arbitrary: retry_count w)
  case 0
  then show ?case
    by (subst analyze_job_match_unfold)
       (simp add: throttled_call_def sleep_def split: api_outcome.splits list.splits sum.splits prod.splits)
next
  case (Suc n)
  then have "n = nat (5 - (retry_count + 1))" by simp
  from Suc.hyps(1) [OF this, of "wait_with_backoff e (retry_count + 1) (throttled_call e w)"]
  show ?case
    by (subst analyze_job_match_unfold)
       (auto simp add: throttled_call_def sleep_def wait_with_backoff_eq prefix_def split: api_outcome.splits list.splits sum.splits prod.splits)
qed

lemma api_calls_wait [simp]: "api_calls (wait_with_backoff e rc w) = api_calls w"
  by (simp add: wait_with_backoff_eq)

lemma api_calls_throttled [simp]: "api_calls (throttled_call e w) = api_calls w + 1"
  by (simp add: throttled_call_def)

lemma analyze_job_match_exhausted:
  "(\<forall>k \<le> nat (5 - retry_count).
      client e (api_calls w + k) (build_prompt resume_text job) = RateLimitError) \<Longrightarrow>
   fst (analyze_job_match e resume_text job retry_count w) =
     analysis_error job ''Rate limit exceeded after 5 retries''"
proof (induction "nat (5 - retry_count)" arbitrary: retry_count w)
  case 0
  then show ?case
    by (subst analyze_job_match_unfold) simp
next
  case (Suc n)
  then have n: "n = nat (5 - (retry_count + 1))" and lt: "retry_count < 5"
    by simp_all
  have first: "client e (api_calls w) (build_prompt resume_text job) = RateLimitError"
    using Suc.prems by (metis add.right_neutral le0)
  let ?w = "wait_with_backoff e (retry_count + 1) (throttled_call e w)"
  have "\<forall>k \<le> nat (5 - (retry_count + 1)).
          client e (api_calls ?w + k) (build_prompt resume_text job) = RateLimitError"
  proof (intro allI impI)
    fix k assume "k \<le> nat (5 - (retry_count + 1))"
    then have "Suc k \<le> nat (5 - retry_count)" using lt by linarith
    with Suc.prems have "client e (api_calls w + Suc k) (build_prompt resume_text job) = RateLimitError"
      by blast
    then show "client e (api_calls ?w + k) (build_prompt resume_text job) = RateLimitError"
      by simp
  qed
  from Suc.hyps(1) [OF n this] first lt show ?case
    by (subst analyze_job_match_unfold) simp
qed

lemma analyze_job_match_outcome:
  "(\<exists>t score reasoning.
      parse_response (int_max_str_digits e) (strip t) = Inr (score, reasoning) \<and>
      fst (analyze_job_match e resume_text job retry_count w) = with_match job score reasoning) \<or>
   (match_score (fst (analyze_job_match e resume_text job retry_count w)) = 0 \<and>
    (match_reasoning (fst (analyze_job_match e resume_text job retry_count w)) =
       ''Error parsing analysis results'' \<or>
     prefix ''Error during analysis: ''
       (match_reasoning (fst (analyze_job_match e resume_text job retry_count w)))))"
proof (induction "nat (5 - retry_count)" arbitrary: retry_count w)
  case 0
  then show ?case
    by (subst (1 2 3 4) analyze_job_match_unfold)
       (auto simp add: analysis_error_def split: api_outcome.splits list.splits sum.splits prod.splits)
next
  case (Suc n)
  then have "n = nat (5 - (retry_count + 1))" by simp
  from Suc.hyps(1) [OF this, of "wait_with_backoff e (retry_count + 1) (throttled_call e w)"]
  show ?case
    by (subst (1 2 3 4) analyze_job_match_unfold)
       (auto simp add: analysis_error_def split: api_outcome.splits list.splits sum.splits prod.splits)
qed

lemma pow2_ge8: "3 \<le> n \<Longrightarrow> (8::real) \<le> 2 ^ n"
  using power_increasing [of 3 n "2::real"] by simp

lemma backoff_eq:
  "0 \<le> rc \<Longrightarrow> slept (wait_with_backoff e rc w) =
     slept w @ [min (20 * 2 ^ nat rc) 120 * (1 / 2 + random e (draws w))]"
  by (simp add: wait_with_backoff_eq power_int_def)

lemma backoff_capped:
  assumes "3 \<le> rc"
  shows "min (20 * 2 ^ nat rc) (120::real) = 120"
proof -
  from assms have "3 \<le> nat rc" by simp
  then have "(8::real) \<le> 2 ^ nat rc" by (rule pow2_ge8)
  then have "(120::real) \<le> 20 * 2 ^ nat rc" by simp
  then show ?thesis by simp
qed

lemma first_retry_prefix:
  assumes "client e (api_calls w) (build_prompt resume_text job) = RateLimitError"
    and "retry_count < 5" and "0 \<le> retry_count"
  shows "prefix (slept w @ [5 + 5 * random e (draws w),
                 min (20 * 2 ^ nat (retry_count + 1)) 120 * (1 / 2 + random e (draws w + 1))])
           (slept (snd (analyze_job_match e resume_text job retry_count w)))"
proof -
  let ?w = "wait_with_backoff e (retry_count + 1) (throttled_call e w)"
  have "slept ?w = slept w @ [5 + 5 * random e (draws w),
                 min (20 * 2 ^ nat (retry_count + 1)) 120 * (1 / 2 + random e (draws w + 1))]"
    using assms(3) by (simp add: wait_with_backoff_eq throttled_call_def power_int_def)
  moreover have "analyze_job_match e resume_text job retry_count w =
      analyze_job_match e resume_text job (retry_count + 1) ?w"
    using assms(1,2) by (subst analyze_job_match_unfold) simp
  ultimately show ?thesis
    using analyze_job_match_slept [of ?w e resume_text job "retry_count + 1"] by simp
qed


section \<open>The parsed response\<close>

text \<open>
  C1: a response is split at its first \<open>|\<close>; it parses exactly when the digits of the
  left part are not empty and read as an integer between 0 and 100, and the trimmed
  right part is not empty; the result is that integer and the trimmed right part, and
  \<open>analyze_job_match\<close> returns the posting with them when the stripped text of the
  response parses. \<open>85|Strong fit, leadership\<close> parses to 85 with that reasoning;
  \<open>abc|reason\<close>, \<open>150|reason\<close> and \<open>70|\<close> are rejected.
\<close>

theorem parse_response_spec:
  "((parse_response maxd s = Inr (score, reasoning)) \<longleftrightarrow>
      (\<exists>left right. s = left @ CHR ''|'' # right \<and> CHR ''|'' \<notin> set left \<and>
         filter isdigit left \<noteq> [] \<and> py_int maxd (filter isdigit left) = Some score \<and>
         0 \<le> score \<and> score \<le> 100 \<and> reasoning = strip right \<and> reasoning \<noteq> [])) \<and>
   (\<forall>t ts sc r.
      client e (api_calls w) (build_prompt resume_text job) = Response (t # ts) \<and>
      parse_response (int_max_str_digits e) (strip t) = Inr (sc, r) \<longrightarrow>
      fst (analyze_job_match e resume_text job retry_count w) = with_match job sc r) \<and>
   parse_response 4300 ''85|Strong fit, leadership'' = Inr (85, ''Strong fit, leadership'') \<and>
   parse_response 4300 ''abc|reason'' = Inl NoDigits \<and>
   parse_response 4300 ''150|reason'' = Inl (OutOfRange 150) \<and>
   parse_response 4300 ''70|'' = Inl EmptyReasoning"
proof -
  have "parse_response 4300 ''85|Strong fit, leadership'' = Inr (85, ''Strong fit, leadership'')"
    by (simp add: parse_eval)
  moreover have "parse_response 4300 ''abc|reason'' = Inl NoDigits"
    by (simp add: parse_eval)
  moreover have "parse_response 4300 ''150|reason'' = Inl (OutOfRange 150)"
    by (simp add: parse_eval)
  moreover have "parse_response 4300 ''70|'' = Inl EmptyReasoning"
    by (simp add: parse_eval)
  moreover have "\<forall>t ts sc r.
      client e (api_calls w) (build_prompt resume_text job) = Response (t # ts) \<and>
      parse_response (int_max_str_digits e) (strip t) = Inr (sc, r) \<longrightarrow>
      fst (analyze_job_match e resume_text job retry_count w) = with_match job sc r"
    by (subst analyze_job_match_unfold) simp
  ultimately show ?thesis
    using parse_response_iff [of maxd s score reasoning] by (intro conjI)
qed

theorem parse_response_spec_witness:
  "parse_response 4300 ''85|Strong fit, leadership'' = Inr (85, ''Strong fit, leadership'') \<and>
   (\<exists>left right. ''85|Strong fit, leadership'' = left @ CHR ''|'' # right \<and>
      CHR ''|'' \<notin> set left \<and> py_int 4300 (filter isdigit left) = Some 85 \<and>
      ''Strong fit, leadership'' = strip right) \<and>
   fst (analyze_job_match (env_answering ['' 85|Strong fit, leadership '']) ''resume''
          example_job 0 initial_world) =
     with_match example_job 85 ''Strong fit, leadership''"
proof -
  note spec = parse_response_spec
    [of 4300 "''85|Strong fit, leadership''" 85 "''Strong fit, leadership''"
     "env_answering ['' 85|Strong fit, leadership '']" initial_world "''resume''" example_job 0]
  from spec have p: "parse_response 4300 ''85|Strong fit, leadership'' =
      Inr (85, ''Strong fit, leadership'')"
    by (elim conjE)
  with spec have q: "\<exists>left right. ''85|Strong fit, leadership'' = left @ CHR ''|'' # right \<and>
      CHR ''|'' \<notin> set left \<and> py_int 4300 (filter isdigit left) = Some 85 \<and>
      ''Strong fit, leadership'' = strip right"
    by blast
  have c: "client (env_answering ['' 85|Strong fit, leadership '']) (api_calls initial_world)
      (build_prompt ''resume'' example_job) = Response ['' 85|Strong fit, leadership '']"
    by (simp add: env_answering_def)
  have d: "parse_response (int_max_str_digits (env_answering ['' 85|Strong fit, leadership '']))
      (strip '' 85|Strong fit, leadership '') = Inr (85, ''Strong fit, leadership'')"
    by (simp add: env_answering_def parse_eval)
  from spec c d have "fst (analyze_job_match (env_answering ['' 85|Strong fit, leadership ''])
      ''resume'' example_job 0 initial_world) =
     with_match example_job 85 ''Strong fit, leadership''"
    by blast
  with p q show ?thesis by (intro conjI)
qed

section \<open>The backoff delay\<close>

text \<open>
  C3, as amended: for a retry count that is not negative, \<open>wait_with_backoff\<close> sleeps
  min(20 * 2^retry\_count, 120) seconds times a jitter factor between 0.5 and 1.5; for
  retry count 0 that is between 10 and 30 seconds, and from retry count 3 on the delay
  before jitter is 120 seconds (60 to 180 after jitter). A rate-limited call of
  \<open>analyze_job_match\<close> at retry count \<open>k\<close> below 5 waits with retry count \<open>k + 1\<close>:
  the count is incremented before the wait, so the first retry of a call that started
  at 0 waits min(20 * 2^1, 120) = 40 seconds times the jitter factor.
\<close>

theorem backoff_delay:
  assumes "0 \<le> retry_count"
    and "\<forall>n. 0 \<le> random e n \<and> random e n \<le> 1"
  shows "slept (wait_with_backoff e retry_count w) =
           slept w @ [min (20 * 2 ^ nat retry_count) 120 * (1 / 2 + random e (draws w))] \<and>
         1 / 2 \<le> 1 / 2 + random e (draws w) \<and> 1 / 2 + random e (draws w) \<le> 3 / 2 \<and>
         (retry_count = 0 \<longrightarrow>
            10 \<le> last (slept (wait_with_backoff e retry_count w)) \<and>
            last (slept (wait_with_backoff e retry_count w)) \<le> 30) \<and>
         (3 \<le> retry_count \<longrightarrow>
            min (20 * 2 ^ nat retry_count) (120::real) = 120 \<and>
            60 \<le> last (slept (wait_with_backoff e retry_count w)) \<and>
            last (slept (wait_with_backoff e retry_count w)) \<le> 180) \<and>
         (retry_count < 5 \<and>
          client e (api_calls w) (build_prompt resume_text job) = RateLimitError \<longrightarrow>
            prefix (slept w @ [5 + 5 * random e (draws w),
                      min (20 * 2 ^ nat (retry_count + 1)) 120 * (1 / 2 + random e (draws w + 1))])
              (slept (snd (analyze_job_match e resume_text job retry_count w))))"
proof -
  have u: "0 \<le> random e (draws w)" "random e (draws w) \<le> 1"
    using assms(2) by simp_all
  have eq: "slept (wait_with_backoff e retry_count w) =
           slept w @ [min (20 * 2 ^ nat retry_count) 120 * (1 / 2 + random e (draws w))]"
    using assms(1) by (rule backoff_eq)
  have zero: "retry_count = 0 \<longrightarrow>
            10 \<le> last (slept (wait_with_backoff e retry_count w)) \<and>
            last (slept (wait_with_backoff e retry_count w)) \<le> 30"
    using u eq by auto
  have cap: "3 \<le> retry_count \<longrightarrow>
            min (20 * 2 ^ nat retry_count) (120::real) = 120 \<and>
            60 \<le> last (slept (wait_with_backoff e retry_count w)) \<and>
            last (slept (wait_with_backoff e retry_count w)) \<le> 180"
    using u eq backoff_capped [of retry_count] by auto
  have retry: "retry_count < 5 \<and>
          client e (api_calls w) (build_prompt resume_text job) = RateLimitError \<longrightarrow>
            prefix (slept w @ [5 + 5 * random e (draws w),
                      min (20 * 2 ^ nat (retry_count + 1)) 120 * (1 / 2 + random e (draws w + 1))])
              (slept (snd (analyze_job_match e resume_text job retry_count w)))"
    using first_retry_prefix [of e w resume_text job retry_count] assms(1) by blast
  from eq u zero cap retry show ?thesis by simp
qed

theorem backoff_delay_witness:
  "slept (wait_with_backoff env_once 0 initial_world) = [20] \<and>
   slept (wait_with_backoff env_once 3 initial_world) = [120] \<and>
   prefix [15 / 2, 40]
     (slept (snd (analyze_job_match env_once ''resume'' example_job 0 initial_world)))"
proof -
  have a: "(0::int) \<le> 0" and a3: "(0::int) \<le> 3"
    by simp_all
  have b: "\<forall>n. 0 \<le> random env_once n \<and> random env_once n \<le> 1"
    by (simp add: env_once_def)
  have "slept (wait_with_backoff env_once 3 initial_world) = [120]"
    using backoff_delay [OF a3 b, of initial_world "''resume''" example_job]
    by (simp add: env_once_def initial_world_def)
  then show ?thesis
    using a b backoff_delay [OF a b, of initial_world "''resume''" example_job]
    by (simp add: env_once_def initial_world_def)
qed

text \<open>
  The wait before the first retry is not that of retry count 0: with a jitter factor
  of 1 it is 40 seconds, outside the 10 to 30 seconds of retry count 0.
\<close>

theorem first_retry_counterexample:
  "slept (snd (analyze_job_match env_once ''resume'' example_job 0 initial_world)) ! 1 = 40 \<and>
   \<not> (slept (snd (analyze_job_match env_once ''resume'' example_job 0 initial_world)) ! 1 \<le> 30)"
  by (simp add: analyze_job_match_unfold env_once_def initial_world_def throttled_call_def
        wait_with_backoff_eq sleep_def parse_eval power_int_def)

section \<open>Termination of the retries\<close>

text \<open>
  C10: \<open>analyze_job_match\<close> is total (its termination is proved with the measure
  5 - retry\_count), and every invocation makes exactly one API call, so the number of
  self-calls of a run is the number of API calls less one: at most 5 - retry\_count,
  hence at most 5 for a retry count that is not negative.
\<close>

theorem analyze_job_match_retries:
  "api_calls w < api_calls (snd (analyze_job_match e resume_text job retry_count w)) \<and>
   api_calls (snd (analyze_job_match e resume_text job retry_count w))
     \<le> api_calls w + 1 + nat (5 - retry_count) \<and>
   (0 \<le> retry_count \<longrightarrow>
      api_calls (snd (analyze_job_match e resume_text job retry_count w)) - api_calls w - 1 \<le> 5)"
  using analyze_job_match_calls [of w e resume_text job retry_count] by auto

theorem analyze_job_match_retries_witness:
  "(0::int) \<le> 0 \<and>
   api_calls (snd (analyze_job_match env_limited ''resume'' example_job 0 initial_world)) = 6 \<and>
   api_calls (snd (analyze_job_match env_limited ''resume'' example_job 0 initial_world))
     - api_calls initial_world - 1 \<le> 5"
proof -
  have "api_calls (snd (analyze_job_match env_limited ''resume'' example_job 0 initial_world)) = 6"
    by (simp add: analyze_job_match_unfold env_limited_def initial_world_def throttled_call_def
        wait_with_backoff_eq)
  then show ?thesis
    using analyze_job_match_retries [of initial_world env_limited "''resume''" example_job 0]
    by simp
qed

section \<open>Scoring a list of postings\<close>

lemma score_jobs_step:
  assumes "analyze_job_match e resume_text p 0 w = (r, w1)"
    and "uniform e 10 15 w1 = (pause, w2)"
  shows "score_jobs e resume_text cb (p # ps) acc w =
           (if (case cb of None \<Rightarrow> True | Some f \<Rightarrow> f r)
            then score_jobs e resume_text cb ps (acc @ [r]) (sleep pause w2)
            else (None, w1))"
  using assms by simp

lemma score_jobs_all:
  "\<exists>ms w'. score_jobs e resume_text None postings acc w = (Some (acc @ ms), w') \<and>
     map job_of ms = postings"
proof (induction postings arbitrary: acc w)
  case Nil
  then show ?case by simp
next
  case (Cons p ps)
  obtain r w1 where run: "analyze_job_match e resume_text p 0 w = (r, w1)"
    by (cases "analyze_job_match e resume_text p 0 w")
  then have r: "job_of r = p"
    using analyze_job_match_job [of e resume_text p 0 w] by simp
  obtain pause w2 where u: "uniform e 10 15 w1 = (pause, w2)"
    by (cases "uniform e 10 15 w1")
  from Cons.IH [of "acc @ [r]" "sleep pause w2"]
  obtain ms w' where "score_jobs e resume_text None ps (acc @ [r]) (sleep pause w2) =
      (Some ((acc @ [r]) @ ms), w')" and "map job_of ms = ps"
    by blast
  then have "score_jobs e resume_text None (p # ps) acc w = (Some (acc @ (r # ms)), w') \<and>
      map job_of (r # ms) = p # ps"
    using run u r by simp
  then show ?case
    by (intro exI [of _ "r # ms"] exI [of _ w']) simp
qed

lemma score_jobs_some:
  "score_jobs e resume_text cb postings acc w = (Some out, w') \<Longrightarrow>
   \<exists>ms. out = acc @ ms \<and> map job_of ms = postings"
proof (induction postings arbitrary: acc w)
  case Nil
  then show ?case by simp
next
  case (Cons p ps)
  obtain r w1 where run: "analyze_job_match e resume_text p 0 w = (r, w1)"
    by (cases "analyze_job_match e resume_text p 0 w")
  then have r: "job_of r = p"
    using analyze_job_match_job [of e resume_text p 0 w] by simp
  obtain pause w2 where u: "uniform e 10 15 w1 = (pause, w2)"
    by (cases "uniform e 10 15 w1")
  have "score_jobs e resume_text cb ps (acc @ [r]) (sleep pause w2) = (Some out, w')"
  proof (cases "case cb of None \<Rightarrow> True | Some f \<Rightarrow> f r")
    case True
    with Cons.prems show ?thesis
      by (simp only: score_jobs_step [OF run u] if_True)
  next
    case False
    with Cons.prems have "(None, w1) = (Some out, w')"
      by (simp only: score_jobs_step [OF run u] if_False)
    then show ?thesis by simp
  qed
  from Cons.IH [OF this] obtain ms where ms: "out = (acc @ [r]) @ ms" "map job_of ms = ps"
    by blast
  show ?case
  proof (intro exI [of _ "r # ms"] conjI)
    show "out = acc @ r # ms"
      by (simp only: ms(1) append_assoc append_Cons append_Nil)
    show "map job_of (r # ms) = p # ps"
      by (simp only: list.map ms(2) r)
  qed
qed

lemma sort_key_same:
  "\<forall>x \<in> set xs. f x = c \<Longrightarrow> sort_key f xs = xs"
proof (induction xs)
  case Nil
  then show ?case by simp
next
  case (Cons x xs)
  then have "sort_key f (x # xs) = insort_key f x xs" by simp
  also have "\<dots> = x # xs"
    using Cons.prems by (cases xs) simp_all
  finally show ?case .
qed

lemma sorted_by_score_desc_const:
  "\<forall>x \<in> set xs. match_score x = c \<Longrightarrow> sorted_by_score_desc xs = xs"
  unfolding sorted_by_score_desc_def by (rule sort_key_same [of _ _ "- c"]) simp

lemma analyze_matches_cases:
  "fst (analyze_matches e resume_text postings cb w) =
     map (\<lambda>job. with_match job 0 ''Analysis failed'') postings \<or>
   (\<exists>out w'. score_jobs e resume_text cb postings [] w = (Some out, w') \<and>
      fst (analyze_matches e resume_text postings cb w) = sorted_by_score_desc out)"
proof (cases "anthropic_key e")
  case None
  then show ?thesis by (simp add: analyze_matches_def)
next
  case (Some key)
  show ?thesis
  proof (cases "key = []")
    case True
    with Some show ?thesis by (simp add: analyze_matches_def)
  next
    case False
    obtain res w' where s: "score_jobs e resume_text cb postings [] w = (res, w')"
      by (cases "score_jobs e resume_text cb postings [] w")
    show ?thesis
    proof (cases res)
      case None
      with s Some False show ?thesis by (simp add: analyze_matches_def)
    next
      case (Some out)
      with s \<open>anthropic_key e = Some key\<close> False show ?thesis
        by (simp add: analyze_matches_def)
    qed
  qed
qed

lemma analyze_matches_shape:
  "\<exists>ms. map job_of ms = postings \<and>
        fst (analyze_matches e resume_text postings cb w) = sorted_by_score_desc ms"
proof -
  let ?failed = "map (\<lambda>job. with_match job 0 ''Analysis failed'') postings"
  have f1: "map job_of ?failed = postings"
    by (simp add: comp_def)
  have f2: "sorted_by_score_desc ?failed = ?failed"
    by (rule sorted_by_score_desc_const [of _ 0]) simp
  from analyze_matches_cases [of e resume_text postings cb w] show ?thesis
  proof
    assume "fst (analyze_matches e resume_text postings cb w) = ?failed"
    with f1 f2 show ?thesis
      by (intro exI [of _ ?failed]) simp
  next
    assume "\<exists>out w'. score_jobs e resume_text cb postings [] w = (Some out, w') \<and>
      fst (analyze_matches e resume_text postings cb w) = sorted_by_score_desc out"
    then obtain out w' where s: "score_jobs e resume_text cb postings [] w = (Some out, w')"
      and r: "fst (analyze_matches e resume_text postings cb w) = sorted_by_score_desc out"
      by blast
    from score_jobs_some [OF s] have "map job_of out = postings" by simp
    with r show ?thesis by blast
  qed
qed


lemma length_sorted_by_score_desc [simp]: "length (sorted_by_score_desc xs) = length xs"
  by (simp add: sorted_by_score_desc_def)

lemma mset_sorted_by_score_desc [simp]: "mset (sorted_by_score_desc xs) = mset xs"
  by (simp add: sorted_by_score_desc_def)

lemma set_sorted_by_score_desc [simp]: "set (sorted_by_score_desc xs) = set xs"
  by (simp add: sorted_by_score_desc_def)

lemma sorted_by_score_desc_descending:
  "sorted_wrt (\<lambda>a b. match_score b \<le> match_score a) (sorted_by_score_desc xs)"
proof -
  have "sorted (map (\<lambda>x. - match_score x) (sorted_by_score_desc xs))"
    unfolding sorted_by_score_desc_def by (rule sorted_sort_key)
  then show ?thesis
    by (simp add: sorted_map)
qed

lemma sorted_by_score_desc_stable:
  "filter (\<lambda>x. match_score x = k) (sorted_by_score_desc xs) = filter (\<lambda>x. match_score x = k) xs"
  using sort_key_stable [of "\<lambda>x. - match_score x" "- k" xs]
  by (simp add: sorted_by_score_desc_def)

text \<open>
  C8: \<open>analyze_matches\<close> returns one scored posting for each input posting, each
  extending its input posting, sorted by score in descending order with a stable sort:
  the result is the stable sort of a list that has the scored postings in input order,
  so postings with equal scores keep their input order.
\<close>

theorem analyze_matches_sorted:
  "length (fst (analyze_matches e resume_text postings cb w)) = length postings \<and>
   mset (map job_of (fst (analyze_matches e resume_text postings cb w))) = mset postings \<and>
   sorted_wrt (\<lambda>a b. match_score b \<le> match_score a)
     (fst (analyze_matches e resume_text postings cb w)) \<and>
   (\<exists>ms. map job_of ms = postings \<and>
      fst (analyze_matches e resume_text postings cb w) = sorted_by_score_desc ms \<and>
      (\<forall>k. filter (\<lambda>x. match_score x = k) (fst (analyze_matches e resume_text postings cb w)) =
           filter (\<lambda>x. match_score x = k) ms))"
proof -
  from analyze_matches_shape [of postings e resume_text cb w]
  obtain ms where ms: "map job_of ms = postings"
    and out: "fst (analyze_matches e resume_text postings cb w) = sorted_by_score_desc ms"
    by blast
  have len: "length (fst (analyze_matches e resume_text postings cb w)) = length postings"
    using ms out by (metis length_map length_sorted_by_score_desc)
  have "mset (map job_of (sorted_by_score_desc ms)) = mset (map job_of ms)"
    by (simp only: mset_map mset_sorted_by_score_desc)
  then have perm: "mset (map job_of (fst (analyze_matches e resume_text postings cb w))) = mset postings"
    by (simp only: out ms)
  have desc: "sorted_wrt (\<lambda>a b. match_score b \<le> match_score a)
     (fst (analyze_matches e resume_text postings cb w))"
    by (simp only: out sorted_by_score_desc_descending)
  have stable: "\<forall>k. filter (\<lambda>x. match_score x = k) (fst (analyze_matches e resume_text postings cb w)) =
           filter (\<lambda>x. match_score x = k) ms"
    by (simp only: out sorted_by_score_desc_stable) simp
  from len perm desc ms out stable show ?thesis by blast
qed

theorem analyze_matches_sorted_witness:
  "length (fst (analyze_matches env_limited ''resume'' [example_job, example_job] None
     initial_world)) = 2"
  using analyze_matches_sorted
    [of env_limited "''resume''" "[example_job, example_job]" None initial_world]
  by simp

section \<open>Degraded results\<close>

text \<open>
  C2, as amended: \<open>analyze_job_match\<close> always returns a scored posting for its
  posting: either the parsed score and reasoning of a response, or a degraded one with
  score 0 whose reasoning is the fixed text \<open>Error parsing analysis results\<close> for a
  parse rejection and \<open>Error during analysis: \<close> followed by the exception's message
  for any other exception (for rate limits on the call and on all its retries, the
  message \<open>Rate limit exceeded after 5 retries\<close>). The loop over the postings goes on
  after such a result: it scores every posting of the list.
\<close>

theorem analyze_job_match_degraded:
  "job_of (fst (analyze_job_match e resume_text job retry_count w)) = job \<and>
   ((\<exists>t score reasoning.
       parse_response (int_max_str_digits e) (strip t) = Inr (score, reasoning) \<and>
       fst (analyze_job_match e resume_text job retry_count w) = with_match job score reasoning) \<or>
    (match_score (fst (analyze_job_match e resume_text job retry_count w)) = 0 \<and>
     (match_reasoning (fst (analyze_job_match e resume_text job retry_count w)) =
        ''Error parsing analysis results'' \<or>
      prefix ''Error during analysis: ''
        (match_reasoning (fst (analyze_job_match e resume_text job retry_count w)))))) \<and>
   (\<forall>t ts err.
      client e (api_calls w) (build_prompt resume_text job) = Response (t # ts) \<and>
      parse_response (int_max_str_digits e) (strip t) = Inl err \<longrightarrow>
      fst (analyze_job_match e resume_text job retry_count w) =
        with_match job 0 ''Error parsing analysis results'') \<and>
   (\<forall>msg.
      client e (api_calls w) (build_prompt resume_text job) = OtherError msg \<longrightarrow>
      fst (analyze_job_match e resume_text job retry_count w) =
        with_match job 0 (''Error during analysis: '' @ msg)) \<and>
   (client e (api_calls w) (build_prompt resume_text job) = Response [] \<longrightarrow>
      fst (analyze_job_match e resume_text job retry_count w) =
        with_match job 0 ''Error during analysis: list index out of range'') \<and>
   ((\<forall>k \<le> nat (5 - retry_count).
       client e (api_calls w + k) (build_prompt resume_text job) = RateLimitError) \<longrightarrow>
      fst (analyze_job_match e resume_text job retry_count w) =
        with_match job 0 ''Error during analysis: Rate limit exceeded after 5 retries'') \<and>
   (\<exists>ms w'. score_jobs e resume_text None postings [] w = (Some ms, w') \<and>
      map job_of ms = postings)"
proof -
  have a: "job_of (fst (analyze_job_match e resume_text job retry_count w)) = job"
    by (rule analyze_job_match_job)
  have b: "\<forall>t ts err.
      client e (api_calls w) (build_prompt resume_text job) = Response (t # ts) \<and>
      parse_response (int_max_str_digits e) (strip t) = Inl err \<longrightarrow>
      fst (analyze_job_match e resume_text job retry_count w) =
        with_match job 0 ''Error parsing analysis results''"
    by (subst analyze_job_match_unfold) simp
  have c: "\<forall>msg.
      client e (api_calls w) (build_prompt resume_text job) = OtherError msg \<longrightarrow>
      fst (analyze_job_match e resume_text job retry_count w) =
        with_match job 0 (''Error during analysis: '' @ msg)"
    by (subst analyze_job_match_unfold) (simp add: analysis_error_def)
  have d: "client e (api_calls w) (build_prompt resume_text job) = Response [] \<longrightarrow>
      fst (analyze_job_match e resume_text job retry_count w) =
        with_match job 0 ''Error during analysis: list index out of range''"
    by (subst analyze_job_match_unfold) (simp add: analysis_error_def)
  have f: "(\<forall>k \<le> nat (5 - retry_count).
       client e (api_calls w + k) (build_prompt resume_text job) = RateLimitError) \<longrightarrow>
      fst (analyze_job_match e resume_text job retry_count w) =
        with_match job 0 ''Error during analysis: Rate limit exceeded after 5 retries''"
    using analyze_job_match_exhausted [of retry_count e w resume_text job]
    by (simp add: analysis_error_def)
  have g: "\<exists>ms w'. score_jobs e resume_text None postings [] w = (Some ms, w') \<and>
      map job_of ms = postings"
    using score_jobs_all [of e resume_text postings "[]" w] by simp
  from a analyze_job_match_outcome [of e resume_text job retry_count w] b c d f g
  show ?thesis by (intro conjI)
qed

theorem analyze_job_match_degraded_witness:
  "fst (analyze_job_match env_limited ''resume'' example_job 0 initial_world) =
     with_match example_job 0 ''Error during analysis: Rate limit exceeded after 5 retries'' \<and>
   fst (analyze_job_match (env_failing ''timed out'') ''resume'' example_job 0 initial_world) =
     with_match example_job 0 ''Error during analysis: timed out'' \<and>
   fst (analyze_job_match (env_answering [''abc|reason'']) ''resume'' example_job 0
          initial_world) =
     with_match example_job 0 ''Error parsing analysis results'' \<and>
   fst (analyze_job_match (env_answering []) ''resume'' example_job 0 initial_world) =
     with_match example_job 0 ''Error during analysis: list index out of range''"
proof -
  have a: "\<forall>k \<le> nat (5 - 0).
      client env_limited (api_calls initial_world + k) (build_prompt ''resume'' example_job) =
        RateLimitError"
    by (simp add: env_limited_def)
  have b: "client (env_failing ''timed out'') (api_calls initial_world)
     (build_prompt ''resume'' example_job) = OtherError ''timed out''"
    by (simp add: env_failing_def)
  have p: "client (env_answering [''abc|reason'']) (api_calls initial_world)
       (build_prompt ''resume'' example_job) = Response [''abc|reason''] \<and>
     parse_response (int_max_str_digits (env_answering [''abc|reason'']))
       (strip ''abc|reason'') = Inl NoDigits"
    by (simp add: env_answering_def parse_eval)
  have q: "client (env_answering []) (api_calls initial_world)
       (build_prompt ''resume'' example_job) = Response []"
    by (simp add: env_answering_def)
  from a analyze_job_match_degraded
    [of env_limited "''resume''" example_job 0 initial_world "[]"]
  have c: "fst (analyze_job_match env_limited ''resume'' example_job 0 initial_world) =
     with_match example_job 0 ''Error during analysis: Rate limit exceeded after 5 retries''"
    by blast
  from b analyze_job_match_degraded
    [of "env_failing ''timed out''" "''resume''" example_job 0 initial_world "[]"]
  have d: "fst (analyze_job_match (env_failing ''timed out'') ''resume'' example_job 0
      initial_world) = with_match example_job 0 (''Error during analysis: '' @ ''timed out'')"
    by blast
  from p analyze_job_match_degraded
    [of "env_answering [''abc|reason'']" "''resume''" example_job 0 initial_world "[]"]
  have f: "fst (analyze_job_match (env_answering [''abc|reason'']) ''resume'' example_job 0
      initial_world) = with_match example_job 0 ''Error parsing analysis results''"
    by blast
  from q analyze_job_match_degraded
    [of "env_answering []" "''resume''" example_job 0 initial_world "[]"]
  have g: "fst (analyze_job_match (env_answering []) ''resume'' example_job 0 initial_world) =
     with_match example_job 0 ''Error during analysis: list index out of range''"
    by blast
  from c d f g show ?thesis by simp
qed

text \<open>
  The reasoning of a degraded result is not one fixed string: two exceptions with
  different messages give different reasonings.
\<close>

theorem fixed_reasoning_counterexample:
  "match_reasoning
     (fst (analyze_job_match (env_failing ''timed out'') ''resume'' example_job 0 initial_world))
   \<noteq> match_reasoning
     (fst (analyze_job_match (env_failing ''refused'') ''resume'' example_job 0 initial_world))"
  by (simp add: analyze_job_match_unfold env_failing_def initial_world_def analysis_error_def)

section \<open>The top-5 buffer\<close>

lemma match_score_scored_example [simp]: "match_score (scored_example t s) = s"
  by (simp add: scored_example_def)

lemma title_scored_example [simp]: "title (scored_example t s) = t"
  by (simp add: scored_example_def with_match_def posting.defs scored_posting.defs)

lemma analyzed_jobs_foldl:
  "analyzed_jobs (foldl handle_analyzed_job p xs) = analyzed_jobs p @ xs"
  by (induction xs arbitrary: p) (simp_all add: handle_analyzed_job_def Let_def)

lemma analysis_count_foldl:
  "analysis_count (foldl handle_analyzed_job p xs) = analysis_count p + length xs"
  by (induction xs arbitrary: p) (simp_all add: handle_analyzed_job_def Let_def)

lemma after_arrivals_top:
  "top_matches (after_arrivals xs) = take 5 (sorted_by_score_desc xs)"
proof (cases xs rule: rev_cases)
  case Nil
  then show ?thesis
    by (simp add: after_arrivals_def new_job_processor_def sorted_by_score_desc_def)
next
  case (snoc ys y)
  have "analyzed_jobs (foldl handle_analyzed_job new_job_processor ys) = ys"
    by (simp add: analyzed_jobs_foldl new_job_processor_def)
  with snoc show ?thesis
    by (simp add: after_arrivals_def handle_analyzed_job_def Let_def)
qed

lemma filter_take_prefix: "prefix (filter P (take n xs)) (filter P xs)"
proof -
  have "filter P xs = filter P (take n xs) @ filter P (drop n xs)"
    by (metis append_take_drop_id filter_append)
  then show ?thesis by (rule prefixI)
qed

lemma take_dominates_drop:
  assumes "sorted_wrt R xs" and "a \<in> set (take n xs)" and "b \<in> set (drop n xs)"
  shows "R a b"
proof -
  from assms(1) have "sorted_wrt R (take n xs @ drop n xs)" by simp
  then show ?thesis
    using assms(2,3) by (auto simp only: sorted_wrt_append)
qed

text \<open>
  C5: after the scored postings \<open>arrivals\<close> were handled one by one, the top-5 buffer
  holds postings that arrived, it holds the 5 best of them (all of them when fewer
  arrived) in descending score order, and postings of equal score appear in arrival
  order, the earlier ones kept first; after the scores 40, 90, 90, 10, 60, 99 the
  buffer is 99, 90, 90, 60, 40 with the two 90s in arrival order.
\<close>

theorem top_matches_invariant:
  "top_matches (after_arrivals arrivals) = take 5 (sorted_by_score_desc arrivals) \<and>
   analyzed_jobs (after_arrivals arrivals) = arrivals \<and>
   set (top_matches (after_arrivals arrivals)) \<subseteq> set arrivals \<and>
   length (top_matches (after_arrivals arrivals)) = min 5 (length arrivals) \<and>
   sorted_wrt (\<lambda>a b. match_score b \<le> match_score a) (top_matches (after_arrivals arrivals)) \<and>
   (\<exists>rest. mset arrivals = mset (top_matches (after_arrivals arrivals)) + mset rest \<and>
      (\<forall>a \<in> set (top_matches (after_arrivals arrivals)). \<forall>b \<in> set rest.
         match_score b \<le> match_score a)) \<and>
   (\<forall>k. prefix (filter (\<lambda>x. match_score x = k) (top_matches (after_arrivals arrivals)))
          (filter (\<lambda>x. match_score x = k) arrivals)) \<and>
   top_matches (after_arrivals example_arrivals) =
     [scored_example ''f'' 99, scored_example ''b'' 90, scored_example ''c'' 90,
      scored_example ''e'' 60, scored_example ''a'' 40]"
proof -
  let ?s = "sorted_by_score_desc arrivals"
  let ?top = "top_matches (after_arrivals arrivals)"
  have top: "?top = take 5 ?s"
    by (rule after_arrivals_top)
  have jobs: "analyzed_jobs (after_arrivals arrivals) = arrivals"
    by (simp add: after_arrivals_def analyzed_jobs_foldl new_job_processor_def)
  have sub: "set ?top \<subseteq> set arrivals"
    using set_take_subset [of 5 ?s] by (simp add: top)
  have len: "length ?top = min 5 (length arrivals)"
    by (simp add: top min.commute)
  have desc: "sorted_wrt (\<lambda>a b. match_score b \<le> match_score a) ?top"
    using sorted_by_score_desc_descending [of arrivals]
    by (simp add: top sorted_wrt_take)
  have "mset arrivals = mset (take 5 ?s) + mset (drop 5 ?s)"
    by (metis append_take_drop_id mset_append mset_sorted_by_score_desc)
  moreover have "\<forall>a \<in> set (take 5 ?s). \<forall>b \<in> set (drop 5 ?s). match_score b \<le> match_score a"
    using take_dominates_drop [OF sorted_by_score_desc_descending [of arrivals]] by blast
  ultimately have best: "\<exists>rest. mset arrivals = mset ?top + mset rest \<and>
      (\<forall>a \<in> set ?top. \<forall>b \<in> set rest. match_score b \<le> match_score a)"
    unfolding top by blast
  have ties: "\<forall>k. prefix (filter (\<lambda>x. match_score x = k) ?top)
          (filter (\<lambda>x. match_score x = k) arrivals)"
  proof
    fix k
    have "prefix (filter (\<lambda>x. match_score x = k) (take 5 ?s)) (filter (\<lambda>x. match_score x = k) ?s)"
      by (rule filter_take_prefix)
    then show "prefix (filter (\<lambda>x. match_score x = k) ?top)
          (filter (\<lambda>x. match_score x = k) arrivals)"
      by (simp only: top sorted_by_score_desc_stable)
  qed
  have ex: "top_matches (after_arrivals example_arrivals) =
     [scored_example ''f'' 99, scored_example ''b'' 90, scored_example ''c'' 90,
      scored_example ''e'' 60, scored_example ''a'' 40]"
    by (simp add: after_arrivals_top sorted_by_score_desc_def example_arrivals_def)
  from top jobs sub len desc best ties ex show ?thesis by (intro conjI)
qed

theorem top_matches_invariant_witness:
  "map match_score (top_matches (after_arrivals example_arrivals)) = [99, 90, 90, 60, 40] \<and>
   map title (top_matches (after_arrivals example_arrivals)) = [''f'', ''b'', ''c'', ''e'', ''a''] \<and>
   set (top_matches (after_arrivals example_arrivals)) \<subseteq> set example_arrivals"
proof -
  note inv = top_matches_invariant [of example_arrivals]
  from inv have ex: "top_matches (after_arrivals example_arrivals) =
     [scored_example ''f'' 99, scored_example ''b'' 90, scored_example ''c'' 90,
      scored_example ''e'' 60, scored_example ''a'' 40]"
    by (elim conjE)
  from inv have sub: "set (top_matches (after_arrivals example_arrivals)) \<subseteq> set example_arrivals"
    by (elim conjE)
  have "map match_score (top_matches (after_arrivals example_arrivals)) = [99, 90, 90, 60, 40]"
    by (simp add: ex)
  moreover have "map title (top_matches (after_arrivals example_arrivals)) =
      [''f'', ''b'', ''c'', ''e'', ''a'']"
    by (simp add: ex)
  ultimately show ?thesis using sub by (intro conjI)
qed

section \<open>The detail fetcher\<close>

lemma first_some_in: "first_some f xs = Some y \<Longrightarrow> \<exists>x \<in> set xs. f x = Some y"
  by (induction xs) (auto split: option.splits)

lemma select_one_hit:
  "select_one soup sel = Some t \<Longrightarrow>
   t \<in> set soup \<and> tag_name t = fst sel \<and> snd sel \<in> set (tag_classes t)"
  by (auto simp: select_one_def find_Some_iff)

lemma find_keyword_hit:
  "find_keyword soup k = Some t \<Longrightarrow>
   t \<in> set soup \<and> tag_name t \<in> {''div'', ''section''} \<and> str_in (lower k) (lower (tag_text t))"
  by (auto simp: find_keyword_def find_Some_iff)

lemma description_body_cases:
  assumes "detail_page e link = Inr soup"
  shows "description_body e link = Inr None \<or>
     (\<exists>t \<in> set soup. description_body e link = Inr (Some (strip (tag_text t))) \<and>
        ((\<exists>sel \<in> set description_selectors.
            tag_name t = fst sel \<and> snd sel \<in> set (tag_classes t)) \<or>
         (tag_name t \<in> {''div'', ''section''} \<and>
          (\<exists>k \<in> set description_keywords. str_in (lower k) (lower (tag_text t))))))"
proof (cases "first_some (select_one soup) description_selectors")
  case (Some t)
  from first_some_in [OF this] obtain sel
    where "sel \<in> set description_selectors" "select_one soup sel = Some t"
    by blast
  with select_one_hit [of soup sel t]
  have "t \<in> set soup" "\<exists>sel \<in> set description_selectors.
            tag_name t = fst sel \<and> snd sel \<in> set (tag_classes t)"
    by blast+
  moreover have "description_body e link = Inr (Some (strip (tag_text t)))"
    using assms Some by (simp add: description_body_def)
  ultimately show ?thesis by blast
next
  case None
  show ?thesis
  proof (cases "first_some (find_keyword soup) description_keywords")
    case (Some t)
    from first_some_in [OF this] obtain k
      where "k \<in> set description_keywords" "find_keyword soup k = Some t"
      by blast
    with find_keyword_hit [of soup k t]
    have "t \<in> set soup" "tag_name t \<in> {''div'', ''section''}"
      "\<exists>k \<in> set description_keywords. str_in (lower k) (lower (tag_text t))"
      by blast+
    moreover have "description_body e link = Inr (Some (strip (tag_text t)))"
      using assms None Some by (simp add: description_body_def)
    ultimately show ?thesis by blast
  next
    case n2: None
    with assms None show ?thesis by (simp add: description_body_def)
  qed
qed

text \<open>
  C9: \<open>get_job_description\<close> never raises: it returns a text for every link. When the
  page cannot be fetched or parsed it returns the sentinel; otherwise it returns the
  sentinel or the stripped text of a tag of the page that matches one of the known
  selectors or, being a \<open>div\<close> or \<open>section\<close>, contains one of the keyword phrases.
\<close>

theorem get_job_description_never_raises:
  "(\<exists>d. get_job_description e link = Inr d) \<and>
   (\<forall>exn. detail_page e link = Inl exn \<longrightarrow> get_job_description e link = Inr not_available) \<and>
   (\<forall>soup. detail_page e link = Inr soup \<longrightarrow>
      get_job_description e link = Inr not_available \<or>
      (\<exists>t \<in> set soup. get_job_description e link = Inr (strip (tag_text t)) \<and>
         ((\<exists>sel \<in> set description_selectors.
             tag_name t = fst sel \<and> snd sel \<in> set (tag_classes t)) \<or>
          (tag_name t \<in> {''div'', ''section''} \<and>
           (\<exists>k \<in> set description_keywords. str_in (lower k) (lower (tag_text t)))))))"
proof (intro conjI allI impI)
  show "\<exists>d. get_job_description e link = Inr d"
    by (simp add: get_job_description_def split: sum.splits option.splits)
next
  fix exn assume "detail_page e link = Inl exn"
  then show "get_job_description e link = Inr not_available"
    by (simp add: get_job_description_def description_body_def)
next
  fix soup assume "detail_page e link = Inr soup"
  from description_body_cases [OF this]
  show "get_job_description e link = Inr not_available \<or>
      (\<exists>t \<in> set soup. get_job_description e link = Inr (strip (tag_text t)) \<and>
         ((\<exists>sel \<in> set description_selectors.
             tag_name t = fst sel \<and> snd sel \<in> set (tag_classes t)) \<or>
          (tag_name t \<in> {''div'', ''section''} \<and>
           (\<exists>k \<in> set description_keywords. str_in (lower k) (lower (tag_text t))))))"
    by (auto simp add: get_job_description_def)
qed

theorem get_job_description_never_raises_witness:
  "detail_page broken_site ''https://example.org/job/1'' = Inl ''connection refused'' \<and>
   get_job_description broken_site ''https://example.org/job/1'' = Inr not_available \<and>
   (\<exists>d. get_job_description empty_site ''https://example.org/job/1'' = Inr d)"
proof -
  have a: "detail_page broken_site ''https://example.org/job/1'' = Inl ''connection refused''"
    by (simp add: broken_site_def)
  from a get_job_description_never_raises [of broken_site "''https://example.org/job/1''"]
  have b: "get_job_description broken_site ''https://example.org/job/1'' = Inr not_available"
    by blast
  from get_job_description_never_raises [of empty_site "''https://example.org/job/1''"]
  have c: "\<exists>d. get_job_description empty_site ''https://example.org/job/1'' = Inr d"
    by blast
  from a b c show ?thesis by (intro conjI)
qed

lemma description_example:
  "get_job_description empty_site ''https://example.org/job/1'' = Inr ''Builds things''"
  by (simp add: get_job_description_def description_body_def empty_site_def
      description_selectors_def select_one_def str_eval)

section \<open>The sample postings and the fallback\<close>

declare scrape_loop.simps [simp del]

lemma upt_five: "[0..<5] = [0, 1, 2, 3, 4]"
  by code_simp

lemma get_sample_jobs_titles:
  "length (get_sample_jobs e r l n) = 5 \<and>
   map title (get_sample_jobs e r l n) = sample_titles r \<and>
   distinct (sample_titles r)"
proof -
  have "distinct (map length (sample_titles r))"
    by (simp add: sample_titles_def)
  then have "distinct (sample_titles r)"
    by (simp only: distinct_map)
  moreover have "map title (get_sample_jobs e r l n) = sample_titles r"
    by (simp add: get_sample_jobs_def sample_titles_def upt_five)
  ultimately show ?thesis
    by (simp add: get_sample_jobs_def)
qed

lemma scrape_empty_page:
  "scrape_linkedin_jobs (Suc 0) empty_site example_query =
     Some (get_sample_jobs empty_site ''Engineer'' ''Berlin'' 0, None)"
  by (simp add: scrape_linkedin_jobs_def scrape_loop.simps [of "Suc 0"] example_query_def
      empty_site_def parse_company_list_def max_jobs_def)

lemma process_card_yielded:
  "length (yielded s) \<le> filtered_count s \<Longrightarrow>
   length (yielded (fst (process_card e q inc exc c s)))
     \<le> filtered_count (fst (process_card e q inc exc c s))"
  by (auto simp add: process_card_def Let_def split: option.splits sum.splits)

lemma process_cards_yielded:
  "length (yielded s) \<le> filtered_count s \<Longrightarrow>
   length (yielded (process_cards e q inc exc cards s))
     \<le> filtered_count (process_cards e q inc exc cards s)"
proof (induction cards arbitrary: s)
  case Nil
  then show ?case by simp
next
  case (Cons c cards)
  obtain s' b where step: "process_card e q inc exc c s = (s', b)"
    by (cases "process_card e q inc exc c s")
  with process_card_yielded [OF Cons.prems, of e q inc exc c]
  have inv: "length (yielded s') \<le> filtered_count s'"
    by simp
  show ?case
  proof (cases b)
    case True
    with step inv show ?thesis by simp
  next
    case False
    with step Cons.IH [OF inv] show ?thesis by simp
  qed
qed

lemma scrape_loop_yielded:
  "scrape_loop fuel e q inc exc s = Some (raised, s') \<Longrightarrow>
   length (yielded s) \<le> filtered_count s \<Longrightarrow>
   length (yielded s') \<le> filtered_count s'"
proof (induction fuel arbitrary: s)
  case 0
  then show ?case
    by (simp add: scrape_loop.simps [of 0] split: if_splits)
next
  case (Suc fuel)
  show ?case
  proof (cases "total_jobs_found s < max_jobs")
    case False
    with Suc.prems show ?thesis
      by (simp add: scrape_loop.simps [of "Suc fuel"])
  next
    case True
    let ?s = "s\<lparr>requests := requests s + 1\<rparr>"
    have inv: "length (yielded ?s) \<le> filtered_count ?s"
      using Suc.prems(2) by simp
    show ?thesis
    proof (cases "search_page e (requests s) (start s)")
      case (RequestException msg)
      with True Suc.prems(1) have "scrape_loop fuel e q inc exc ?s = Some (raised, s')"
        by (simp add: scrape_loop.simps [of "Suc fuel"])
      from Suc.IH [OF this inv] show ?thesis .
    next
      case (OtherException msg)
      with True Suc.prems(1) have "s' = ?s"
        by (simp add: scrape_loop.simps [of "Suc fuel"])
      with inv show ?thesis by simp
    next
      case (Cards job_cards)
      let ?p = "process_cards e q inc exc job_cards ?s"
      have invp: "length (yielded ?p) \<le> filtered_count ?p"
        using inv by (rule process_cards_yielded)
      show ?thesis
      proof (cases "job_cards = [] \<or> max_jobs \<le> filtered_count ?p")
        case stop: True
        with Cards True Suc.prems(1) have "s' = ?s \<or> s' = ?p"
          by (auto simp add: scrape_loop.simps [of "Suc fuel"] Let_def split: if_splits)
        with inv invp show ?thesis by auto
      next
        case go: False
        let ?n = "?p\<lparr>start := start ?p + length job_cards\<rparr>"
        from go Cards True Suc.prems(1)
        have "scrape_loop fuel e q inc exc ?n = Some (raised, s')"
          by (simp add: scrape_loop.simps [of "Suc fuel"] Let_def)
        moreover have "length (yielded ?n) \<le> filtered_count ?n"
          using invp by simp
        ultimately show ?thesis by (rule Suc.IH)
      qed
    qed
  qed
qed

text \<open>
  Without an exception, a streaming run that ends with no accepted posting yields
  exactly the sample postings.
\<close>

lemma scrape_zero_accepted:
  assumes "scrape_loop fuel e q (parse_company_list (included_companies q))
             (parse_company_list (excluded_companies q))
             \<lparr>jobs = [], yielded = [], total_jobs_found = 0, filtered_count = 0, start = 0,
              requests = 0, stamps = 0\<rparr> = Some (False, s)"
    and "filtered_count s = 0"
    and "stream_jobs q"
  shows "scrape_linkedin_jobs fuel e q =
           Some (get_sample_jobs e (role q) (search_location q) (stamps s), None)"
proof -
  from scrape_loop_yielded [OF assms(1)] assms(2) have "yielded s = []"
    by simp
  with assms show ?thesis
    by (simp add: scrape_linkedin_jobs_def Let_def)
qed

text \<open>
  C4: when the search raises an exception that is not a \<open>RequestException\<close> before
  any posting was accepted, the streaming generator yields the sample postings in the
  handler and, falling through, once more after it: 10 postings, not 5. The
  non-streaming branch of the same handler returns them once.
\<close>

theorem fallback_yielded_twice:
  "scrape_linkedin_jobs (Suc 0) broken_site example_query =
     Some (get_sample_jobs broken_site ''Engineer'' ''Berlin'' 0 @
           get_sample_jobs broken_site ''Engineer'' ''Berlin'' 5, None) \<and>
   length (get_sample_jobs broken_site ''Engineer'' ''Berlin'' 0 @
           get_sample_jobs broken_site ''Engineer'' ''Berlin'' 5) = 10 \<and>
   scrape_linkedin_jobs (Suc 0) broken_site (example_query\<lparr>stream_jobs := False\<rparr>) =
     Some ([], Some (get_sample_jobs broken_site ''Engineer'' ''Berlin'' 0))"
proof -
  have "scrape_linkedin_jobs (Suc 0) broken_site example_query =
     Some (get_sample_jobs broken_site ''Engineer'' ''Berlin'' 0 @
           get_sample_jobs broken_site ''Engineer'' ''Berlin'' 5, None)"
    by (simp add: scrape_linkedin_jobs_def scrape_loop.simps [of "Suc 0"] example_query_def
        broken_site_def parse_company_list_def max_jobs_def)
  moreover have "scrape_linkedin_jobs (Suc 0) broken_site (example_query\<lparr>stream_jobs := False\<rparr>) =
     Some ([], Some (get_sample_jobs broken_site ''Engineer'' ''Berlin'' 0))"
    by (simp add: scrape_linkedin_jobs_def scrape_loop.simps [of "Suc 0"] example_query_def
        broken_site_def parse_company_list_def max_jobs_def)
  moreover have "length (get_sample_jobs broken_site ''Engineer'' ''Berlin'' 0 @
           get_sample_jobs broken_site ''Engineer'' ''Berlin'' 5) = 10"
    by (simp add: get_sample_jobs_def)
  ultimately show ?thesis by (intro conjI)
qed

end
